theory Spec2Isabelle
  imports Main "HOL-Library.AList" "HOL-Library.Multiset"
begin

section \<open>The provider's interfaces as the dashboards and reporters see them\<close>

text \<open>
  The pages of the dashboard (\<^verbatim>\<open>patch_compliance_final.py\<close>, the
  \<^verbatim>\<open>Patch_Compliance (n).py\<close> variants) and the Lambda reporters read the cloud
  provider through boto3 clients. A response is a loosely typed dictionary; here each
  response shape is a record, a key that the code reads with \<^verbatim>\<open>.get(key, default)\<close>
  is an optional field, and a key that it indexes directly is a plain field.
  Time stamps are kept as text.

  A paginator is consumed by a \<^verbatim>\<open>for page in paginator.paginate(...)\<close> loop inside a
  \<^verbatim>\<open>try\<close>: it yields some pages and then either ends or raises. Its value is the pages
  it yielded and the text of the exception it raised after them, if any.
  A single call either raises (\<open>Inl\<close> the text of the exception) or answers.

  The text \<^verbatim>\<open>str(e)\<close> of an exception is a Python string, and the code cuts it by
  characters (\<^verbatim>\<open>str(e)[:50]\<close>). It is kept as the list of its characters, each
  character being the string of its UTF-8 bytes, so that a cut keeps whole characters
  whatever their width.
\<close>

type_synonym exception_text = "string list"

definition text_of :: "string \<Rightarrow> exception_text" where
  "text_of s = map (\<lambda>c. [c]) s"

type_synonym 'a paginator = "'a list list \<times> exception_text option"

definition dict_get :: "'a option \<Rightarrow> 'a \<Rightarrow> 'a" where
  "dict_get field dflt = (case field of None \<Rightarrow> dflt | Some v \<Rightarrow> v)"

record ec2_instance =
  ec2_InstanceId :: string
  ec2_Tags :: "(string \<times> string) list"
  ec2_Platform :: "string option"
  ec2_State :: string
  ec2_LaunchTime :: "string option"

text \<open>A page of \<^verbatim>\<open>describe_instances\<close> is a list of reservations, each a list of instances.\<close>

type_synonym reservation = "ec2_instance list"

record instance_information =
  info_InstanceId :: string
  info_PingStatus :: "string option"

record compliance_summary =
  ResourceId :: "string option"
  Status :: "string option"

record patch_state =
  ps_InstanceId :: "string option"
  InstalledCount :: "int option"
  MissingCount :: "int option"
  FailedCount :: "int option"
  NotApplicableCount :: "int option"
  UnreportedNotApplicableCount :: "int option"
  InstalledPendingRebootCount :: "int option"
  InstalledOtherCount :: "int option"
  InstalledRejectedCount :: "int option"

text \<open>
  \<^verbatim>\<open>group.get('BaselineIdentity', {}).get('BaselineId', 'N/A')\<close>: the identifier is absent
  when either key is.
\<close>

record group_mapping =
  PatchGroup :: "string option"
  BaselineId :: "string option"

record group_state =
  Instances :: "int option"
  InstancesWithInstalledPatches :: "int option"
  InstancesWithMissingPatches :: "int option"
  InstancesWithFailedPatches :: "int option"
  InstancesWithNotApplicablePatches :: "int option"
  InstancesWithUnreportedNotApplicablePatches :: "int option"

record available_patch =
  patch_Id :: "string option"
  patch_Title :: "string option"
  patch_Classification :: "string option"
  patch_Severity :: "string option"
  patch_ReleaseDate :: "string option"
  patch_ContentUrl :: "string option"

text \<open>
  The two clients of a unit. The answers of the provider do not change while one unit
  runs, so a call is a function of its argument.
\<close>

record ssm_client =
  describe_instance_information :: "instance_information paginator"
  list_resource_compliance_summaries :: "compliance_summary paginator"
  describe_instance_patch_states :: "string list \<Rightarrow> exception_text + patch_state list"
  describe_patch_groups :: "group_mapping paginator"
  describe_patch_group_state :: "string \<Rightarrow> exception_text + group_state"
  describe_available_patches :: "available_patch paginator"

text \<open>
  \<^verbatim>\<open>describe_instances\<close> is listed through \<^verbatim>\<open>paginate(Filters=...)\<close>; the only filter
  the code ever passes is on \<^verbatim>\<open>instance-state-name\<close>, so the argument is the list of
  its values, and \<open>None\<close> is a call without \<^verbatim>\<open>Filters\<close>.
\<close>

record ec2_client =
  describe_instances :: "string list option \<Rightarrow> reservation paginator"

section \<open>The rows handed to the presentation layer\<close>

record unit_tag =
  Account_Name :: string
  Region :: string

text \<open>
  A row of the instance table. The four patch counts are keys that the row may lack:
  \<open>None\<close> is the absent key.
\<close>

record instance_row = unit_tag +
  Instance_ID :: string
  Instance_Name :: string
  Platform :: string
  Compliance_Status :: string
  SSM_Agent_Status :: string
  Instance_State :: string
  Launch_Time :: "string option"
  Managed :: bool
  Installed_Patches :: "int option"
  Missing_Patches :: "int option"
  Failed_Patches :: "int option"
  Unspecified_Patches :: "int option"

record group_row = unit_tag +
  Patch_Group :: string
  Baseline_ID :: string
  Instances_Count :: int
  Compliant :: int
  Non_Compliant :: int
  Unspecified :: int

record patch_row = unit_tag +
  Patch_ID :: string
  Title :: string
  Classification :: string
  Severity :: string
  Release_Date :: "string option"
  Content_URL :: string

section \<open>\<^verbatim>\<open>fetch_account_region_data\<close> of \<^verbatim>\<open>patch_compliance_final.py\<close>\<close>

text \<open>
  The values of \<^verbatim>\<open>instance_map\<close>. The key \<^verbatim>\<open>processed\<close> is set only by the
  compliance-summary loop and read with \<^verbatim>\<open>.get('processed')\<close>: absent reads as false.
  The dictionary keeps its keys in insertion order and an assignment to a key already
  there keeps the key's place: an association list under \<^const>\<open>AList.update\<close>.
\<close>

record inst_info =
  name :: string
  platform :: string
  state :: string
  launch :: "string option"
  ssm_managed :: bool
  ssm_agent_status :: string
  processed :: bool

type_synonym instance_map = "(string \<times> inst_info) list"

text \<open>
  The two marks that open a message, as their UTF-8 bytes. The account name and the
  region are only ever concatenated, so their bytes stand for them.
\<close>

definition cross_mark :: string where
  "cross_mark = [CHR 0xE2, CHR 0x9D, CHR 0x8C]"

definition warning_sign :: string where
  "warning_sign = [CHR 0xE2, CHR 0x9A, CHR 0xA0, CHR 0xEF, CHR 0xB8, CHR 0x8F]"

definition warning :: "string \<Rightarrow> string \<Rightarrow> string \<Rightarrow> exception_text \<Rightarrow> string" where
  "warning account_name region what e =
     warning_sign @ '' '' @ account_name @ ''/'' @ region @ '': '' @ what @ '' - ''
       @ concat (take 50 e)"

definition raised :: "string \<Rightarrow> string \<Rightarrow> string \<Rightarrow> 'a paginator \<Rightarrow> string list" where
  "raised account_name region what pg =
     (case snd pg of None \<Rightarrow> [] | Some e \<Rightarrow> [warning account_name region what e])"

definition inventory_entry :: "ec2_instance \<Rightarrow> inst_info" where
  "inventory_entry inst =
     \<lparr>name = (case map_of (ec2_Tags inst) ''Name'' of
                 Some v \<Rightarrow> v | None \<Rightarrow> ec2_InstanceId inst),
      platform = dict_get (ec2_Platform inst) ''linux'',
      state = ec2_State inst,
      launch = ec2_LaunchTime inst,
      ssm_managed = False,
      ssm_agent_status = ''Unknown'',
      processed = False\<rparr>"

definition collect_inventory :: "reservation paginator \<Rightarrow> instance_map" where
  "collect_inventory pg =
     foldl (\<lambda>m inst. AList.update (ec2_InstanceId inst) (inventory_entry inst) m)
       [] (concat (concat (fst pg)))"

definition mark_managed :: "instance_information paginator \<Rightarrow> instance_map \<Rightarrow> instance_map" where
  "mark_managed pg m =
     foldl (\<lambda>m inst. AList.map_entry (info_InstanceId inst)
               (\<lambda>i. i\<lparr>ssm_managed := True,
                       ssm_agent_status := dict_get (info_PingStatus inst) ''Unknown''\<rparr>) m)
       m (concat (fst pg))"

definition summary_row :: "string \<Rightarrow> string \<Rightarrow> string \<Rightarrow> string \<Rightarrow> inst_info \<Rightarrow> instance_row" where
  "summary_row account_name region iid status info =
     \<lparr>Account_Name = account_name, Region = region,
      Instance_ID = iid,
      Instance_Name = name info,
      Platform = platform info,
      Compliance_Status = status,
      SSM_Agent_Status = ssm_agent_status info,
      Instance_State = state info,
      Launch_Time = launch info,
      Managed = ssm_managed info,
      Installed_Patches = None, Missing_Patches = None,
      Failed_Patches = None, Unspecified_Patches = None\<rparr>"

definition summary_step ::
  "string \<Rightarrow> string \<Rightarrow> instance_row list \<times> instance_map \<Rightarrow> compliance_summary
     \<Rightarrow> instance_row list \<times> instance_map" where
  "summary_step account_name region acc summary =
     (let iid = dict_get (ResourceId summary) '''' in
      case map_of (snd acc) iid of
        None \<Rightarrow> acc
      | Some info \<Rightarrow>
          (fst acc @ [summary_row account_name region iid
                        (dict_get (Status summary) ''NON_COMPLIANT'') info],
           AList.map_entry iid (\<lambda>i. i\<lparr>processed := True\<rparr>) (snd acc)))"

definition compliance_summaries ::
  "string \<Rightarrow> string \<Rightarrow> compliance_summary paginator \<Rightarrow> instance_map
     \<Rightarrow> instance_row list \<times> instance_map" where
  "compliance_summaries account_name region pg m =
     foldl (summary_step account_name region) ([], m) (concat (fst pg))"

text \<open>
  The inner loop over \<^verbatim>\<open>instances\<close> stops at the first row of the identifier
  (\<^verbatim>\<open>break\<close>).
\<close>

fun update_first :: "('a \<Rightarrow> bool) \<Rightarrow> ('a \<Rightarrow> 'a) \<Rightarrow> 'a list \<Rightarrow> 'a list" where
  "update_first P f [] = []"
| "update_first P f (x # xs) = (if P x then f x # xs else x # update_first P f xs)"

definition add_patch_details :: "patch_state \<Rightarrow> instance_row \<Rightarrow> instance_row" where
  "add_patch_details st inst =
     inst\<lparr>Installed_Patches := Some (dict_get (InstalledCount st) 0),
          Missing_Patches := Some (dict_get (MissingCount st) 0),
          Failed_Patches := Some (dict_get (FailedCount st) 0),
          Unspecified_Patches := Some (dict_get (NotApplicableCount st) 0
                                       + dict_get (UnreportedNotApplicableCount st) 0)\<rparr>"

text \<open>
  One query per processed identifier, \<^verbatim>\<open>InstanceIds=[iid]\<close>. The accumulator is the
  rows and the queries issued so far; a query that raises is passed over
  (\<^verbatim>\<open>except: pass\<close>).
\<close>

definition patch_detail_step ::
  "(string list \<Rightarrow> exception_text + patch_state list) \<Rightarrow> instance_map
     \<Rightarrow> instance_row list \<times> string list list \<Rightarrow> string
     \<Rightarrow> instance_row list \<times> string list list" where
  "patch_detail_step api m acc iid =
     (if (case map_of m iid of Some info \<Rightarrow> processed info | None \<Rightarrow> False) then
        (case api [iid] of
           Inl e \<Rightarrow> (fst acc, snd acc @ [[iid]])
         | Inr [] \<Rightarrow> (fst acc, snd acc @ [[iid]])
         | Inr (st # rest) \<Rightarrow>
             (update_first (\<lambda>inst. Instance_ID inst = iid) (add_patch_details st) (fst acc),
              snd acc @ [[iid]]))
      else acc)"

definition patch_details ::
  "(string list \<Rightarrow> exception_text + patch_state list) \<Rightarrow> instance_map \<Rightarrow> instance_row list
     \<Rightarrow> instance_row list \<times> string list list" where
  "patch_details api m instances =
     foldl (patch_detail_step api m) (instances, []) (map fst m)"

definition unmanaged_row :: "string \<Rightarrow> string \<Rightarrow> string \<times> inst_info \<Rightarrow> instance_row" where
  "unmanaged_row account_name region kv =
     \<lparr>Account_Name = account_name, Region = region,
      Instance_ID = fst kv,
      Instance_Name = name (snd kv),
      Platform = platform (snd kv),
      Compliance_Status = ''UNMANAGED'',
      SSM_Agent_Status = ''Not Installed'',
      Instance_State = state (snd kv),
      Launch_Time = launch (snd kv),
      Managed = False,
      Installed_Patches = Some 0, Missing_Patches = Some 0,
      Failed_Patches = Some 0, Unspecified_Patches = Some 0\<rparr>"

definition add_unmanaged ::
  "string \<Rightarrow> string \<Rightarrow> instance_map \<Rightarrow> instance_row list \<Rightarrow> instance_row list" where
  "add_unmanaged account_name region m instances =
     instances @ map (unmanaged_row account_name region)
                   (filter (\<lambda>kv. \<not> processed (snd kv) \<and> \<not> ssm_managed (snd kv)) m)"

definition group_step ::
  "string \<Rightarrow> string \<Rightarrow> (string \<Rightarrow> exception_text + group_state) \<Rightarrow> group_row list \<Rightarrow> group_mapping
     \<Rightarrow> group_row list" where
  "group_step account_name region api groups g =
     (let group_name = dict_get (PatchGroup g) ''N/A'';
          baseline_id = dict_get (BaselineId g) ''N/A'' in
      case api group_name of
        Inl ge \<Rightarrow> groups
      | Inr resp \<Rightarrow>
          (let count = dict_get (Instances resp) 0;
               compliant = dict_get (InstancesWithInstalledPatches resp) 0;
               non_compliant = dict_get (InstancesWithMissingPatches resp) 0
                                + dict_get (InstancesWithFailedPatches resp) 0;
               unspecified = dict_get (InstancesWithNotApplicablePatches resp) 0
                              + dict_get (InstancesWithUnreportedNotApplicablePatches resp) 0 in
           if count > 0 then
             groups @ [\<lparr>Account_Name = account_name, Region = region,
                        Patch_Group = group_name,
                        Baseline_ID = baseline_id,
                        Instances_Count = count,
                        Compliant = compliant,
                        Non_Compliant = non_compliant,
                        Unspecified = unspecified\<rparr>]
           else groups))"

definition patch_groups ::
  "string \<Rightarrow> string \<Rightarrow> group_mapping paginator \<Rightarrow> (string \<Rightarrow> exception_text + group_state)
     \<Rightarrow> group_row list" where
  "patch_groups account_name region pg api =
     foldl (group_step account_name region api) [] (concat (fst pg))"

definition available_patch_row :: "string \<Rightarrow> string \<Rightarrow> available_patch \<Rightarrow> patch_row" where
  "available_patch_row account_name region patch =
     \<lparr>Account_Name = account_name, Region = region,
      Patch_ID = dict_get (patch_Id patch) ''N/A'',
      Title = dict_get (patch_Title patch) ''N/A'',
      Classification = dict_get (patch_Classification patch) ''N/A'',
      Severity = dict_get (patch_Severity patch) ''N/A'',
      Release_Date = patch_ReleaseDate patch,
      Content_URL = dict_get (patch_ContentUrl patch) ''N/A''\<rparr>"

definition available_patches :: "string \<Rightarrow> string \<Rightarrow> available_patch paginator \<Rightarrow> patch_row list" where
  "available_patches account_name region pg =
     map (available_patch_row account_name region) (concat (fst pg))"

text \<open>
  The instance rows of a unit whose two clients exist, with the queries that the
  patch-detail loop issued.
\<close>

definition reconcile ::
  "string \<Rightarrow> string \<Rightarrow> ssm_client \<Rightarrow> ec2_client \<Rightarrow> instance_row list \<times> string list list" where
  "reconcile account_name region ssm ec2 =
     (let m1 = collect_inventory (describe_instances ec2 None);
          m2 = mark_managed (describe_instance_information ssm) m1;
          s = compliance_summaries account_name region
                (list_resource_compliance_summaries ssm) m2;
          d = patch_details (describe_instance_patch_states ssm) (snd s) (fst s)
      in (add_unmanaged account_name region (snd s) (fst d), snd d))"

type_synonym unit_result =
  "instance_row list \<times> group_row list \<times> patch_row list \<times> string list"

text \<open>
  \<^verbatim>\<open>get_ssm\<close> and \<^verbatim>\<open>get_ec2\<close> answer a client or \<^verbatim>\<open>None\<close>; the account
  identifier and the role name are used by them only.
\<close>

definition fetch_account_region_data ::
  "string \<Rightarrow> string \<Rightarrow> ssm_client option \<Rightarrow> ec2_client option \<Rightarrow> unit_result" where
  "fetch_account_region_data account_name region ssm_opt ec2_opt =
     (case (ssm_opt, ec2_opt) of
        (Some ssm, Some ec2) \<Rightarrow>
          (fst (reconcile account_name region ssm ec2),
           patch_groups account_name region (describe_patch_groups ssm)
             (describe_patch_group_state ssm),
           available_patches account_name region (describe_available_patches ssm),
           raised account_name region ''EC2 error'' (describe_instances ec2 None)
           @ raised account_name region ''SSM instances'' (describe_instance_information ssm)
           @ raised account_name region ''Compliance summaries''
               (list_resource_compliance_summaries ssm)
           @ raised account_name region ''Patch groups'' (describe_patch_groups ssm)
           @ raised account_name region ''Patches'' (describe_available_patches ssm))
      | _ \<Rightarrow>
          ([], [], [],
           [cross_mark @ '' '' @ account_name @ ''/'' @ region @ '': Auth failed'']))"

section \<open>\<^verbatim>\<open>fetch_all_data\<close> of \<^verbatim>\<open>patch_compliance_final.py\<close>\<close>












section \<open>The patch table of the page: \<^verbatim>\<open>unique_patches\<close>\<close>

text \<open>
  \<^verbatim>\<open>pat_df.drop_duplicates(subset=['Patch ID'])\<close> is pandas' reduction with its default
  \<^verbatim>\<open>keep='first'\<close>: rows are read in order and a row is kept when no earlier row has
  its key.
\<close>

fun drop_duplicates_seen :: "('a \<Rightarrow> 'k) \<Rightarrow> 'k list \<Rightarrow> 'a list \<Rightarrow> 'a list" where
  "drop_duplicates_seen key seen [] = []"
| "drop_duplicates_seen key seen (row # rows) =
     (if key row \<in> set seen then drop_duplicates_seen key seen rows
      else row # drop_duplicates_seen key (key row # seen) rows)"

definition drop_duplicates :: "('a \<Rightarrow> 'k) \<Rightarrow> 'a list \<Rightarrow> 'a list" where
  "drop_duplicates key df = drop_duplicates_seen key [] df"

definition unique_patches :: "patch_row list \<Rightarrow> patch_row list" where
  "unique_patches pat_df = drop_duplicates Patch_ID pat_df"

section \<open>The instance data of \<^verbatim>\<open>get_patch_compliance\<close> in \<^verbatim>\<open>Patch_Compliance (3).py\<close>\<close>










section \<open>The Lambda reporters\<close>

text \<open>
  \<^verbatim>\<open>for i in range(0, len(managed_instances), batch_size)\<close> and
  \<^verbatim>\<open>managed_instances[i:i+batch_size]\<close>.
\<close>

definition batch_size :: nat where
  "batch_size = 50"

definition range_step :: "nat \<Rightarrow> nat \<Rightarrow> nat list" where
  "range_step stop step = map (\<lambda>k. k * step) [0 ..< (stop + step - 1) div step]"

definition batches :: "'a list \<Rightarrow> 'a list list" where
  "batches managed_instances =
     map (\<lambda>i. take batch_size (drop i managed_instances))
       (range_step (length managed_instances) batch_size)"

record noncompliance_counts =
  missing_count :: int
  failed_count :: int
  installed_pending_reboot_count :: int
  installed_other_count :: int
  installed_rejected_count :: int
  not_applicable_count :: int

record patch_compliance = noncompliance_counts +
  total_managed_instances :: int
  compliant_instances :: int
  non_compliant_instances :: int

definition empty_summary :: "int \<Rightarrow> patch_compliance" where
  "empty_summary n =
     \<lparr>missing_count = 0, failed_count = 0, installed_pending_reboot_count = 0,
      installed_other_count = 0, installed_rejected_count = 0, not_applicable_count = 0,
      total_managed_instances = n, compliant_instances = 0, non_compliant_instances = 0\<rparr>"

subsection \<open>\<^verbatim>\<open>get_patch_compliance_data\<close> of \<^verbatim>\<open>final_corrected_patch_compliance_lambda.py\<close>\<close>

definition tally_state :: "patch_compliance \<Rightarrow> patch_state \<Rightarrow> patch_compliance" where
  "tally_state summary st =
     (let missing = max 0 (dict_get (MissingCount st) 0);
          failed = max 0 (dict_get (FailedCount st) 0);
          summary = (if missing = 0 \<and> failed = 0
                     then summary\<lparr>compliant_instances := compliant_instances summary + 1\<rparr>
                     else summary\<lparr>non_compliant_instances :=
                                     non_compliant_instances summary + 1\<rparr>)
      in summary
          \<lparr>missing_count := missing_count summary + missing,
           failed_count := failed_count summary + failed,
           installed_pending_reboot_count := installed_pending_reboot_count summary
              + max 0 (dict_get (InstalledPendingRebootCount st) 0),
           installed_other_count := installed_other_count summary
              + max 0 (dict_get (InstalledOtherCount st) 0),
           installed_rejected_count := installed_rejected_count summary
              + max 0 (dict_get (InstalledRejectedCount st) 0),
           not_applicable_count := not_applicable_count summary
              + max 0 (dict_get (NotApplicableCount st) 0)\<rparr>)"

text \<open>
  The accumulator of the loop over the batches is the summary and the calls issued so
  far. A call that raises is logged by the reporter and the loop goes on to the next
  batch.
\<close>

definition batch_step ::
  "(string list \<Rightarrow> exception_text + patch_state list) \<Rightarrow> patch_compliance \<times> string list list
     \<Rightarrow> string list \<Rightarrow> patch_compliance \<times> string list list" where
  "batch_step api acc batch =
     (case api batch of
        Inl batch_error \<Rightarrow> (fst acc, snd acc @ [batch])
      | Inr states \<Rightarrow> (foldl tally_state (fst acc) states, snd acc @ [batch]))"

text \<open>
  \<^verbatim>\<open>session.client('ssm')\<close> raises or answers the client, of which the function calls
  \<^verbatim>\<open>describe_instance_patch_states\<close> only.
\<close>

definition get_patch_compliance_data ::
  "exception_text + (string list \<Rightarrow> exception_text + patch_state list) \<Rightarrow> string list
     \<Rightarrow> patch_compliance \<times> string list list" where
  "get_patch_compliance_data session managed_instances =
     (if managed_instances = [] then (empty_summary 0, [])
      else case session of
        Inl e \<Rightarrow> (empty_summary (int (length managed_instances)), [])
      | Inr api \<Rightarrow>
          foldl (batch_step api) (empty_summary (int (length managed_instances)), [])
            (batches managed_instances))"

subsection \<open>\<^verbatim>\<open>get_ec2_instances\<close> of \<^verbatim>\<open>final_corrected_patch_compliance_lambda.py\<close>\<close>

text \<open>An exception anywhere in the listing discards what was read: the answer is empty.\<close>

definition get_ec2_instances ::
  "exception_text + (string list option \<Rightarrow> reservation paginator) \<Rightarrow> string list" where
  "get_ec2_instances session =
     (case session of
        Inl e \<Rightarrow> []
      | Inr paginate \<Rightarrow>
          (let pg = paginate (Some [''running'', ''stopped'']) in
           case snd pg of
             Some e \<Rightarrow> []
           | None \<Rightarrow> map ec2_InstanceId (concat (concat (fst pg)))))"

subsection \<open>\<^verbatim>\<open>completely_corrected_patch_compliance_lambda.py\<close>\<close>

text \<open>
  An item of the content of \<^verbatim>\<open>get_ops_summary\<close>: \<^verbatim>\<open>int(item.get('Count', 0))\<close> is
  zero for an absent key, the number for a numeric text, and raises for any other text.
  An entity is the list of its items.
\<close>

datatype count_field = Absent | Numeric int | Malformed

record ops_item =
  item_PingStatus :: "string option"
  item_Count :: count_field

record explorer_client = ssm_client +
  get_ops_summary :: "exception_text + ops_item list list"

record session =
  client_ssm :: "exception_text + explorer_client"
  client_ec2 :: "exception_text + (string list option \<Rightarrow> reservation paginator)"

text \<open>
  The summary of the instance management. Its fourth key, the managed percentage, is a
  rounded float and is left out.
\<close>

record management_summary =
  total_ec2_instances :: int
  managed_instances :: int
  not_managed_instances :: int









section \<open>The provider's listing under a filter\<close>

text \<open>
  What the provider does with the filter is not code of the repository. This is its
  contract: a listing with a filter on the state name holds the instances of the fleet
  whose state is one of the values, and a listing without a filter holds them all.
\<close>

definition provider_listing ::
  "reservation list list \<Rightarrow> string list option \<Rightarrow> reservation paginator" where
  "provider_listing fleet filter_values =
     (case filter_values of
        None \<Rightarrow> (fleet, None)
      | Some values \<Rightarrow>
          (map (map (filter (\<lambda>instance. ec2_State instance \<in> set values))) fleet, None))"

section \<open>Notions used in the statements and their proofs\<close>

text \<open>
  The identifier and the status that the compliance-summary loop reads from an item, the
  three listings of a unit as lists, and the rows of one identifier.
\<close>

definition summary_id :: "compliance_summary \<Rightarrow> string" where
  "summary_id summary = dict_get (ResourceId summary) ''''"

definition summary_status :: "compliance_summary \<Rightarrow> string" where
  "summary_status summary = dict_get (Status summary) ''NON_COMPLIANT''"

definition inventory_ids :: "ec2_client \<Rightarrow> string list" where
  "inventory_ids ec2 = map fst (collect_inventory (describe_instances ec2 None))"

definition registry_ids :: "ssm_client \<Rightarrow> string list" where
  "registry_ids ssm = map info_InstanceId (concat (fst (describe_instance_information ssm)))"

definition summaries :: "ssm_client \<Rightarrow> compliance_summary list" where
  "summaries ssm = concat (fst (list_resource_compliance_summaries ssm))"

definition rows_of :: "string \<Rightarrow> instance_row list \<Rightarrow> instance_row list" where
  "rows_of iid rows = filter (\<lambda>r. Instance_ID r = iid) rows"








text \<open>
  The map after the identifiers of \<open>S\<close> were marked as processed, and the rows that the
  compliance-summary loop appends for one item.
\<close>

definition mark_processed :: "string set \<Rightarrow> instance_map \<Rightarrow> instance_map" where
  "mark_processed S m =
     map (\<lambda>kv. (fst kv, if fst kv \<in> S then (snd kv)\<lparr>processed := True\<rparr> else snd kv)) m"

definition rows_for_summary ::
  "string \<Rightarrow> string \<Rightarrow> instance_map \<Rightarrow> compliance_summary \<Rightarrow> instance_row list" where
  "rows_for_summary account_name region m summary =
     (case map_of m (summary_id summary) of
        None \<Rightarrow> []
      | Some info \<Rightarrow>
          [summary_row account_name region (summary_id summary) (summary_status summary) info])"

section \<open>Concrete units\<close>

text \<open>
  A fleet of three instances on two pages, a fleet with a terminated instance, and a
  client built from the identifiers that the registry lists as online, the compliance
  summaries (identifier, status) and the patch states (identifier, missing, failed).
  The region has three patch groups: the state of \<^verbatim>\<open>web\<close> counts three instances,
  that of \<^verbatim>\<open>db\<close> cannot be fetched, that of \<^verbatim>\<open>idle\<close> counts none.
\<close>

definition instance_in_state :: "string \<Rightarrow> string \<Rightarrow> ec2_instance" where
  "instance_in_state iid st =
     \<lparr>ec2_InstanceId = iid, ec2_Tags = [], ec2_Platform = None, ec2_State = st,
      ec2_LaunchTime = None\<rparr>"

definition fleet_of_three :: "reservation list list" where
  "fleet_of_three =
     [[[instance_in_state ''i-aaa'' ''running'', instance_in_state ''i-bbb'' ''stopped'']],
      [[instance_in_state ''i-ccc'' ''running'']]]"

definition fleet_with_terminated :: "reservation list list" where
  "fleet_with_terminated =
     [[[instance_in_state ''i-aaa'' ''running'', instance_in_state ''i-ddd'' ''terminated'']]]"

definition ec2_over :: "reservation list list \<Rightarrow> ec2_client" where
  "ec2_over fleet = \<lparr>describe_instances = provider_listing fleet\<rparr>"

definition state_with :: "string \<times> int \<times> int \<Rightarrow> patch_state" where
  "state_with t =
     \<lparr>ps_InstanceId = Some (fst t), InstalledCount = Some 10,
      MissingCount = Some (fst (snd t)), FailedCount = Some (snd (snd t)),
      NotApplicableCount = None, UnreportedNotApplicableCount = None,
      InstalledPendingRebootCount = None, InstalledOtherCount = None,
      InstalledRejectedCount = None\<rparr>"

definition group_named :: "string \<Rightarrow> group_mapping" where
  "group_named n = \<lparr>PatchGroup = Some n, BaselineId = Some ''pb-1''\<rparr>"

definition group_counting :: "int \<Rightarrow> group_state" where
  "group_counting n =
     \<lparr>Instances = Some n, InstancesWithInstalledPatches = Some n,
      InstancesWithMissingPatches = None, InstancesWithFailedPatches = None,
      InstancesWithNotApplicablePatches = None,
      InstancesWithUnreportedNotApplicablePatches = None\<rparr>"

definition patch_known :: "string \<Rightarrow> available_patch" where
  "patch_known pid =
     \<lparr>patch_Id = Some pid, patch_Title = None, patch_Classification = None,
      patch_Severity = Some ''Critical'', patch_ReleaseDate = None, patch_ContentUrl = None\<rparr>"

definition ssm_with ::
  "string list \<Rightarrow> (string \<times> string) list \<Rightarrow> (string \<times> int \<times> int) list \<Rightarrow> ssm_client" where
  "ssm_with online summ states =
     \<lparr>describe_instance_information =
        ([map (\<lambda>i. \<lparr>info_InstanceId = i, info_PingStatus = Some ''Online''\<rparr>) online], None),
      list_resource_compliance_summaries =
        ([map (\<lambda>t. \<lparr>ResourceId = Some (fst t), Status = Some (snd t)\<rparr>) summ], None),
      describe_instance_patch_states =
        (\<lambda>ids. Inr (map state_with (filter (\<lambda>t. fst t \<in> set ids) states))),
      describe_patch_groups =
        ([[group_named ''web'', group_named ''db'', group_named ''idle'']], None),
      describe_patch_group_state =
        (\<lambda>n. if n = ''web'' then Inr (group_counting 3)
              else if n = ''db'' then Inl (text_of ''ThrottlingException'')
              else Inr (group_counting 0)),
      describe_available_patches =
        ([[patch_known ''KB1'', patch_known ''KB1'', patch_known ''KB2'']], None)\<rparr>"


text \<open>Two hundred and fifty identifiers, and a patch-state call that knows none of them.\<close>

definition many_ids :: "string list" where
  "many_ids = map (\<lambda>n. ''i-'' @ [char_of n]) [0 ..< 250]"

definition no_states :: "string list \<Rightarrow> exception_text + patch_state list" where
  "no_states ids = Inr []"






section \<open>Facts about the loops of \<^verbatim>\<open>fetch_account_region_data\<close>\<close>

subsection \<open>The inventory loop\<close>


lemma map_entry_keys: "map fst (AList.map_entry k f m) = map fst m"
  by (induction m) auto

lemma map_entry_distinct_conv:
  "distinct (map fst m) \<Longrightarrow>
   AList.map_entry k f m = map (\<lambda>kv. (fst kv, if fst kv = k then f (snd kv) else snd kv)) m"
proof (induction m)
  case Nil
  show ?case by simp
next
  case (Cons p ps)
  show ?case
  proof (cases "fst p = k")
    case True
    with Cons.prems have "k \<notin> fst ` set ps" by auto
    then have "map (\<lambda>kv. (fst kv, if fst kv = k then f (snd kv) else snd kv)) ps = ps"
      by (intro map_idI) auto
    with True show ?thesis by simp
  next
    case False
    with Cons show ?thesis by simp
  qed
qed

lemma map_of_map_values:
  "map_of (map (\<lambda>kv. (fst kv, g (fst kv) (snd kv))) m) k = map_option (g k) (map_of m k)"
  by (induction m) auto

lemma collect_inventory_distinct: "distinct (map fst (collect_inventory pg))"
proof -
  have "distinct (map fst m) \<Longrightarrow>
        distinct (map fst (foldl (\<lambda>m inst. AList.update (ec2_InstanceId inst) (inventory_entry inst) m) m xs))"
    for m :: instance_map and xs
    by (induction xs arbitrary: m) (auto simp: AList.distinct_update)
  then show ?thesis by (simp add: collect_inventory_def)
qed

lemma update_subset: "set (AList.update k v m) \<subseteq> insert (k, v) (set m)"
  by (induction m) auto

lemma inventory_fold_flags:
  "(\<forall>kv \<in> set m. \<not> ssm_managed (snd kv) \<and> \<not> processed (snd kv)) \<Longrightarrow>
   (\<forall>kv \<in> set (foldl (\<lambda>m inst. AList.update (ec2_InstanceId inst) (inventory_entry inst) m) m xs).
       \<not> ssm_managed (snd kv) \<and> \<not> processed (snd kv))"
proof (induction xs arbitrary: m)
  case Nil
  then show ?case by simp
next
  case (Cons x xs)
  have "\<forall>kv \<in> set (AList.update (ec2_InstanceId x) (inventory_entry x) m).
          \<not> ssm_managed (snd kv) \<and> \<not> processed (snd kv)"
    using Cons.prems update_subset [of "ec2_InstanceId x" "inventory_entry x" m]
    by (auto simp: inventory_entry_def)
  from Cons.IH [OF this] show ?case by simp
qed

lemma collect_inventory_flags:
  "kv \<in> set (collect_inventory pg) \<Longrightarrow> \<not> ssm_managed (snd kv) \<and> \<not> processed (snd kv)"
  using inventory_fold_flags [of "[]" "concat (concat (fst pg))"]
  by (simp add: collect_inventory_def)

subsection \<open>The registry loop\<close>

lemma mark_fold:
  "distinct (map fst m) \<Longrightarrow>
   (\<forall>kv \<in> set m. (ssm_managed (snd kv) \<longleftrightarrow> fst kv \<in> S) \<and> \<not> processed (snd kv)) \<Longrightarrow>
   m' = foldl (\<lambda>m inst. AList.map_entry (info_InstanceId inst)
               (\<lambda>i. i\<lparr>ssm_managed := True,
                       ssm_agent_status := dict_get (info_PingStatus inst) ''Unknown''\<rparr>) m) m xs \<Longrightarrow>
   map fst m' = map fst m \<and>
   (\<forall>kv \<in> set m'. (ssm_managed (snd kv) \<longleftrightarrow> fst kv \<in> S \<union> info_InstanceId ` set xs)
        \<and> \<not> processed (snd kv))"
proof (induction xs arbitrary: m S m')
  case Nil
  then show ?case by simp
next
  case (Cons x xs)
  let ?f = "\<lambda>i. i\<lparr>ssm_managed := True,
                   ssm_agent_status := dict_get (info_PingStatus x) ''Unknown''\<rparr>"
  let ?m1 = "AList.map_entry (info_InstanceId x) ?f m"
  have k: "map fst ?m1 = map fst m" by (rule map_entry_keys)
  have d: "distinct (map fst ?m1)" using Cons.prems(1) k by simp
  have conv: "?m1 = map (\<lambda>kv. (fst kv, if fst kv = info_InstanceId x then ?f (snd kv) else snd kv)) m"
    by (rule map_entry_distinct_conv [OF Cons.prems(1)])
  have inv: "\<forall>kv \<in> set ?m1. (ssm_managed (snd kv) \<longleftrightarrow> fst kv \<in> insert (info_InstanceId x) S)
                \<and> \<not> processed (snd kv)"
    using Cons.prems(2) by (subst conv) auto
  have m': "m' = foldl (\<lambda>m inst. AList.map_entry (info_InstanceId inst)
               (\<lambda>i. i\<lparr>ssm_managed := True,
                       ssm_agent_status := dict_get (info_PingStatus inst) ''Unknown''\<rparr>) m) ?m1 xs"
    using Cons.prems(3) by simp
  from Cons.IH [OF d inv m'] k show ?case by simp
qed

lemma mark_managed_keys: "map fst (mark_managed pg (collect_inventory ec)) = map fst (collect_inventory ec)"
  using mark_fold [OF collect_inventory_distinct, of ec "{}" _ "concat (fst pg)"]
        collect_inventory_flags [of _ ec]
  by (simp add: mark_managed_def)

lemma mark_managed_flags:
  "kv \<in> set (mark_managed pg (collect_inventory ec)) \<Longrightarrow>
   (ssm_managed (snd kv) \<longleftrightarrow> fst kv \<in> info_InstanceId ` set (concat (fst pg)))
   \<and> \<not> processed (snd kv)"
  using mark_fold [OF collect_inventory_distinct, of ec "{}" _ "concat (fst pg)"]
        collect_inventory_flags [of _ ec]
  by (simp add: mark_managed_def)

subsection \<open>The compliance-summary loop\<close>

lemma mark_processed_keys [simp]: "map fst (mark_processed S m) = map fst m"
  by (simp add: mark_processed_def comp_def)

lemma map_of_mark_processed:
  "map_of (mark_processed S m) k
   = map_option (\<lambda>i. if k \<in> S then i\<lparr>processed := True\<rparr> else i) (map_of m k)"
  unfolding mark_processed_def
  using map_of_map_values [of "\<lambda>k i. if k \<in> S then i\<lparr>processed := True\<rparr> else i" m k]
  by simp

lemma mark_processed_absent:
  "k \<notin> fst ` set m \<Longrightarrow> mark_processed (insert k S) m = mark_processed S m"
  by (auto simp: mark_processed_def)

lemma mark_processed_entry:
  "distinct (map fst m) \<Longrightarrow>
   AList.map_entry k (\<lambda>i. i\<lparr>processed := True\<rparr>) (mark_processed S m)
   = mark_processed (insert k S) m"
proof -
  assume "distinct (map fst m)"
  then have "distinct (map fst (mark_processed S m))" by simp
  from map_entry_distinct_conv [OF this]
  show ?thesis by (auto simp: mark_processed_def)
qed

lemma summary_row_processed [simp]:
  "summary_row an rg k st (i\<lparr>processed := b\<rparr>) = summary_row an rg k st i"
  by (simp add: summary_row_def)

lemma summary_step_conv:
  assumes "distinct (map fst m)"
  shows "summary_step an rg (rows, mark_processed S m) s
         = (rows @ rows_for_summary an rg m s, mark_processed (insert (summary_id s) S) m)"
proof (cases "map_of m (summary_id s)")
  case None
  then have "summary_id s \<notin> fst ` set m" by (simp add: map_of_eq_None_iff)
  with None show ?thesis
    by (simp add: summary_step_def rows_for_summary_def map_of_mark_processed
                  mark_processed_absent summary_id_def [symmetric])
next
  case (Some info)
  then show ?thesis
    using mark_processed_entry [OF assms, of "summary_id s" S]
    by (simp add: summary_step_def rows_for_summary_def map_of_mark_processed Let_def
                  summary_id_def [symmetric] summary_status_def [symmetric])
qed

lemma summary_fold:
  assumes "distinct (map fst m)"
  shows "foldl (summary_step an rg) (rows, mark_processed S m) ss
         = (rows @ concat (map (rows_for_summary an rg m) ss),
            mark_processed (S \<union> summary_id ` set ss) m)"
proof (induction ss arbitrary: rows S)
  case Nil
  show ?case by simp
next
  case (Cons s ss)
  show ?case
    by (simp add: summary_step_conv [OF assms] Cons.IH)
qed

lemma mark_processed_empty [simp]: "mark_processed {} m = m"
  by (simp add: mark_processed_def)

lemma compliance_summaries_conv:
  assumes "distinct (map fst m)"
  shows "compliance_summaries an rg pg m
         = (concat (map (rows_for_summary an rg m) (concat (fst pg))),
            mark_processed (summary_id ` set (concat (fst pg))) m)"
  using summary_fold [OF assms, of an rg "[]" "{}" "concat (fst pg)"]
  by (simp add: compliance_summaries_def)

subsection \<open>The patch-detail loop\<close>

lemma update_first_map:
  "(\<And>x. g (f x) = g x) \<Longrightarrow> map g (update_first P f xs) = map g xs"
  by (induction xs) auto

lemma patch_detail_step_map:
  assumes "\<And>st r. g (add_patch_details st r) = g r"
  shows "map g (fst (patch_detail_step api m acc iid)) = map g (fst acc)"
  by (auto simp: patch_detail_step_def update_first_map [of g, OF assms]
           split: option.splits sum.splits list.splits)

lemma patch_details_fold_map:
  assumes "\<And>st r. g (add_patch_details st r) = g r"
  shows "map g (fst (foldl (patch_detail_step api m) acc ks)) = map g (fst acc)"
  by (induction ks arbitrary: acc) (simp_all add: patch_detail_step_map [of g, OF assms])

lemma patch_details_map:
  assumes "\<And>st r. g (add_patch_details st r) = g r"
  shows "map g (fst (patch_details api m rows)) = map g rows"
  by (simp add: patch_details_def patch_details_fold_map [of g, OF assms])

lemma patch_details_calls_fold:
  "snd (foldl (patch_detail_step api m) acc ks)
   = snd acc @ map (\<lambda>iid. [iid])
       (filter (\<lambda>iid. case map_of m iid of Some info \<Rightarrow> processed info | None \<Rightarrow> False) ks)"
proof (induction ks arbitrary: acc)
  case Nil
  show ?case by simp
next
  case (Cons k ks)
  have "snd (patch_detail_step api m acc k)
        = snd acc @ (if (case map_of m k of Some info \<Rightarrow> processed info | None \<Rightarrow> False)
                     then [[k]] else [])"
    by (simp add: patch_detail_step_def split: option.splits sum.splits list.splits)
  then show ?case by (simp add: Cons.IH)
qed

lemma rows_of_update_first:
  "j \<noteq> iid \<Longrightarrow>
   rows_of iid (update_first (\<lambda>r. Instance_ID r = j) (add_patch_details st) rows)
   = rows_of iid rows"
  by (induction rows) (auto simp: rows_of_def add_patch_details_def)

lemma patch_detail_step_rows_of:
  assumes "api [iid] = Inr [] \<or> (\<exists>e. api [iid] = Inl e)"
  shows "rows_of iid (fst (patch_detail_step api m acc j)) = rows_of iid (fst acc)"
proof (cases "j = iid")
  case True
  with assms show ?thesis by (auto simp: patch_detail_step_def)
next
  case False
  then show ?thesis
    by (auto simp: patch_detail_step_def rows_of_update_first
             split: option.splits sum.splits list.splits)
qed

lemma patch_details_rows_of:
  assumes "api [iid] = Inr [] \<or> (\<exists>e. api [iid] = Inl e)"
  shows "rows_of iid (fst (patch_details api m rows)) = rows_of iid rows"
proof -
  have "rows_of iid (fst (foldl (patch_detail_step api m) acc ks)) = rows_of iid (fst acc)"
    for acc ks
    using assms by (induction ks arbitrary: acc) (simp_all add: patch_detail_step_rows_of)
  then show ?thesis by (simp add: patch_details_def)
qed

subsection \<open>The rows of a unit\<close>

lemma rows_for_summary_ids:
  "map Instance_ID (concat (map (rows_for_summary an rg m) ss))
   = filter (\<lambda>i. i \<in> fst ` set m) (map summary_id ss)"
proof (induction ss)
  case Nil
  show ?case by simp
next
  case (Cons s ss)
  have "map Instance_ID (rows_for_summary an rg m s)
        = (if summary_id s \<in> fst ` set m then [summary_id s] else [])"
    by (auto simp: rows_for_summary_def summary_row_def map_of_eq_None_iff
             split: option.splits dest: map_of_SomeD intro: rev_image_eqI)
  then show ?case using Cons.IH by simp
qed

lemma unmanaged_keys:
  assumes "\<forall>kv \<in> set m. (ssm_managed (snd kv) \<longleftrightarrow> fst kv \<in> R) \<and> \<not> processed (snd kv)"
  shows "map fst (filter (\<lambda>kv. \<not> processed (snd kv) \<and> \<not> ssm_managed (snd kv))
                    (mark_processed S m))
         = filter (\<lambda>k. k \<notin> S \<and> k \<notin> R) (map fst m)"
  using assms by (induction m) (auto simp: mark_processed_def)

lemma reconcile_rows:
  "fst (reconcile an rg ssm ec2)
   = fst (patch_details (describe_instance_patch_states ssm)
            (mark_processed (summary_id ` set (summaries ssm))
               (mark_managed (describe_instance_information ssm)
                  (collect_inventory (describe_instances ec2 None))))
            (concat (map (rows_for_summary an rg
                 (mark_managed (describe_instance_information ssm)
                    (collect_inventory (describe_instances ec2 None))))
               (summaries ssm))))
     @ map (unmanaged_row an rg)
         (filter (\<lambda>kv. \<not> processed (snd kv) \<and> \<not> ssm_managed (snd kv))
            (mark_processed (summary_id ` set (summaries ssm))
               (mark_managed (describe_instance_information ssm)
                  (collect_inventory (describe_instances ec2 None)))))"
proof -
  have d: "distinct (map fst (mark_managed (describe_instance_information ssm)
                     (collect_inventory (describe_instances ec2 None))))"
    by (simp add: mark_managed_keys collect_inventory_distinct)
  show ?thesis
    by (simp add: reconcile_def Let_def compliance_summaries_conv [OF d] add_unmanaged_def
                  summaries_def)
qed

lemma reconcile_ids:
  "map Instance_ID (fst (reconcile an rg ssm ec2))
   = filter (\<lambda>i. i \<in> set (inventory_ids ec2)) (map summary_id (summaries ssm))
     @ filter (\<lambda>k. k \<notin> summary_id ` set (summaries ssm) \<and> k \<notin> set (registry_ids ssm))
         (inventory_ids ec2)"
proof -
  let ?m2 = "mark_managed (describe_instance_information ssm)
               (collect_inventory (describe_instances ec2 None))"
  have keys: "map fst ?m2 = inventory_ids ec2"
    by (simp add: mark_managed_keys inventory_ids_def)
  then have dom: "fst ` set ?m2 = set (inventory_ids ec2)"
    by (metis set_map)
  have flags: "\<forall>kv \<in> set ?m2. (ssm_managed (snd kv) \<longleftrightarrow> fst kv \<in> set (registry_ids ssm))
                  \<and> \<not> processed (snd kv)"
    using mark_managed_flags [of _ "describe_instance_information ssm" "describe_instances ec2 None"]
    by (simp add: registry_ids_def)
  have ids: "\<And>st r. Instance_ID (add_patch_details st r) = Instance_ID r"
    by (simp add: add_patch_details_def)
  have un: "map Instance_ID (map (unmanaged_row an rg) kvs) = map fst kvs" for kvs
    by (simp add: unmanaged_row_def comp_def)
  show ?thesis
    unfolding reconcile_rows map_append patch_details_map [of Instance_ID, OF ids]
              rows_for_summary_ids un unmanaged_keys [OF flags] dom keys
    by simp
qed

lemma rows_of_append [simp]: "rows_of iid (xs @ ys) = rows_of iid xs @ rows_of iid ys"
  by (simp add: rows_of_def)



lemma rows_of_unmanaged:
  "rows_of iid (map (unmanaged_row an rg) kvs)
   = map (unmanaged_row an rg) (filter (\<lambda>kv. fst kv = iid) kvs)"
  by (induction kvs) (auto simp: rows_of_def unmanaged_row_def)

lemma managed_map_facts:
  fixes ssm ec2
  defines "m2 \<equiv> mark_managed (describe_instance_information ssm)
                   (collect_inventory (describe_instances ec2 None))"
  shows "map fst m2 = inventory_ids ec2"
    and "distinct (map fst m2)"
    and "\<forall>kv \<in> set m2. (ssm_managed (snd kv) \<longleftrightarrow> fst kv \<in> set (registry_ids ssm))
            \<and> \<not> processed (snd kv)"
proof -
  show k: "map fst m2 = inventory_ids ec2"
    by (simp add: m2_def mark_managed_keys inventory_ids_def)
  show "distinct (map fst m2)"
    by (simp add: m2_def mark_managed_keys collect_inventory_distinct)
  show "\<forall>kv \<in> set m2. (ssm_managed (snd kv) \<longleftrightarrow> fst kv \<in> set (registry_ids ssm))
            \<and> \<not> processed (snd kv)"
    using mark_managed_flags [of _ "describe_instance_information ssm" "describe_instances ec2 None"]
    by (simp add: registry_ids_def m2_def)
qed

lemma rows_of_summary_rows:
  assumes "map_of m iid = Some info"
  shows "rows_of iid (concat (map (rows_for_summary an rg m) ss))
         = map (\<lambda>s. summary_row an rg iid (summary_status s) info)
             (filter (\<lambda>s. summary_id s = iid) ss)"
proof (induction ss)
  case Nil
  show ?case by (simp add: rows_of_def)
next
  case (Cons s ss)
  have "rows_of iid (rows_for_summary an rg m s)
        = (if summary_id s = iid then [summary_row an rg iid (summary_status s) info] else [])"
    using assms
    by (auto simp: rows_for_summary_def rows_of_def summary_row_def split: option.splits)
  then show ?case using Cons.IH by simp
qed

lemmas unit_defs =
  fetch_account_region_data_def reconcile_def collect_inventory_def mark_managed_def
  compliance_summaries_def summary_step_def summary_row_def patch_details_def
  patch_detail_step_def add_patch_details_def add_unmanaged_def unmanaged_row_def
  inventory_entry_def dict_get_def ec2_over_def ssm_with_def provider_listing_def
  fleet_of_three_def fleet_with_terminated_def instance_in_state_def state_with_def
  inventory_ids_def registry_ids_def summaries_def summary_id_def summary_status_def
  rows_of_def Let_def

subsection \<open>The patch-group loop\<close>





section \<open>The claims\<close>






text \<open>
  C4, as the code has it. The claim fails twice: an instance that the registry lists and
  a compliance summary names keeps the status of the summary when its patch-state call
  answers nothing, and an instance that the registry lists and no compliance summary
  names gets no row at all. What holds for an instance of the inventory that the
  registry lists and whose patch-state call raises or answers no record: it gets one row
  for each compliance-summary item that names it (none when no item does), in the order
  of the listing; each row carries the status of its item, is flagged managed and has
  none of the four patch counts.
\<close>

theorem registered_without_patch_state:
  assumes inv: "iid \<in> set (inventory_ids ec2)"
    and reg: "iid \<in> set (registry_ids ssm)"
    and nostate: "describe_instance_patch_states ssm [iid] = Inr []
                  \<or> (\<exists>e. describe_instance_patch_states ssm [iid] = Inl e)"
  shows "map Compliance_Status
           (rows_of iid (fst (fetch_account_region_data an rg (Some ssm) (Some ec2))))
         = map summary_status (filter (\<lambda>s. summary_id s = iid) (summaries ssm))
       \<and> (\<forall>r \<in> set (rows_of iid (fst (fetch_account_region_data an rg (Some ssm) (Some ec2)))).
             Managed r \<and> Installed_Patches r = None \<and> Missing_Patches r = None
             \<and> Failed_Patches r = None \<and> Unspecified_Patches r = None)"
proof -
  let ?m2 = "mark_managed (describe_instance_information ssm)
               (collect_inventory (describe_instances ec2 None))"
  let ?S = "summary_id ` set (summaries ssm)"
  let ?m3 = "mark_processed ?S ?m2"
  let ?U = "filter (\<lambda>kv. \<not> processed (snd kv) \<and> \<not> ssm_managed (snd kv)) ?m3"
  note facts = managed_map_facts [of ssm ec2]
  have out: "fst (fetch_account_region_data an rg (Some ssm) (Some ec2))
             = fst (reconcile an rg ssm ec2)"
    by (simp add: fetch_account_region_data_def)
  from inv facts(1) obtain v where v: "(iid, v) \<in> set ?m2"
    by (metis (no_types, lifting) imageE prod.collapse set_map)
  with facts(3) reg have managed: "ssm_managed v" by auto
  have look: "map_of ?m2 iid = Some v"
    using facts(2) v by simp
  have "\<forall>kv \<in> set ?m3. fst kv = iid \<longrightarrow> ssm_managed (snd kv)"
  proof (intro ballI impI)
    fix kv assume "kv \<in> set ?m3" and k: "fst kv = iid"
    then obtain kv' where kv': "kv' \<in> set ?m2" "fst kv' = fst kv"
      "ssm_managed (snd kv) = ssm_managed (snd kv')"
      by (auto simp: mark_processed_def)
    with facts(3) reg k show "ssm_managed (snd kv)" by auto
  qed
  then have "filter (\<lambda>kv. fst kv = iid) ?U = []"
    by (auto simp: filter_empty_conv)
  then have second: "rows_of iid (map (unmanaged_row an rg) ?U) = []"
    by (simp add: rows_of_unmanaged)
  have rows: "rows_of iid (fst (fetch_account_region_data an rg (Some ssm) (Some ec2)))
        = map (\<lambda>s. summary_row an rg iid (summary_status s) v)
            (filter (\<lambda>s. summary_id s = iid) (summaries ssm))"
    unfolding out reconcile_rows rows_of_append second
              patch_details_rows_of [of "describe_instance_patch_states ssm" iid, OF nostate]
              rows_of_summary_rows [OF look]
    by simp
  show ?thesis
    unfolding rows using managed by (simp add: summary_row_def comp_def)
qed

theorem registered_without_patch_state_witness:
  "''i-aaa'' \<in> set (inventory_ids (ec2_over fleet_of_three))
   \<and> ''i-aaa'' \<in> set (registry_ids (ssm_with [''i-aaa'', ''i-ccc'']
         [(''i-aaa'', ''COMPLIANT'')] []))
   \<and> describe_instance_patch_states (ssm_with [''i-aaa'', ''i-ccc'']
         [(''i-aaa'', ''COMPLIANT'')] []) [''i-aaa''] = Inr []
   \<and> map Compliance_Status (rows_of ''i-aaa''
         (fst (fetch_account_region_data ''prod'' ''us-east-1''
            (Some (ssm_with [''i-aaa'', ''i-ccc''] [(''i-aaa'', ''COMPLIANT'')] []))
            (Some (ec2_over fleet_of_three)))))
       = map summary_status (filter (\<lambda>s. summary_id s = ''i-aaa'')
           (summaries (ssm_with [''i-aaa'', ''i-ccc''] [(''i-aaa'', ''COMPLIANT'')] [])))
   \<and> map summary_status (filter (\<lambda>s. summary_id s = ''i-aaa'')
           (summaries (ssm_with [''i-aaa'', ''i-ccc''] [(''i-aaa'', ''COMPLIANT'')] [])))
       = [''COMPLIANT'']"
proof -
  let ?ssm = "ssm_with [''i-aaa'', ''i-ccc''] [(''i-aaa'', ''COMPLIANT'')] []"
  have h1: "''i-aaa'' \<in> set (inventory_ids (ec2_over fleet_of_three))"
    by (simp add: unit_defs)
  have h2: "''i-aaa'' \<in> set (registry_ids ?ssm)"
    by (simp add: unit_defs)
  have h3: "describe_instance_patch_states ?ssm [''i-aaa''] = Inr []"
    by (simp add: unit_defs)
  have h4: "map summary_status (filter (\<lambda>s. summary_id s = ''i-aaa'') (summaries ?ssm))
            = [''COMPLIANT'']"
    by (simp add: unit_defs)
  from registered_without_patch_state [OF h1 h2 disjI1 [OF h3], of "''prod''" "''us-east-1''"]
    h1 h2 h3 h4
  show ?thesis by blast
qed

theorem registered_without_patch_state_counterexample:
  "''i-aaa'' \<in> set (inventory_ids (ec2_over fleet_of_three))
   \<and> ''i-aaa'' \<in> set (registry_ids (ssm_with [''i-aaa'', ''i-ccc'']
         [(''i-aaa'', ''COMPLIANT'')] []))
   \<and> describe_instance_patch_states (ssm_with [''i-aaa'', ''i-ccc'']
         [(''i-aaa'', ''COMPLIANT'')] []) [''i-aaa''] = Inr []
   \<and> map Compliance_Status (rows_of ''i-aaa''
         (fst (fetch_account_region_data ''prod'' ''us-east-1''
            (Some (ssm_with [''i-aaa'', ''i-ccc''] [(''i-aaa'', ''COMPLIANT'')] []))
            (Some (ec2_over fleet_of_three)))))
       = [''COMPLIANT'']
   \<and> ''i-ccc'' \<in> set (inventory_ids (ec2_over fleet_of_three))
   \<and> ''i-ccc'' \<in> set (registry_ids (ssm_with [''i-aaa'', ''i-ccc'']
         [(''i-aaa'', ''COMPLIANT'')] []))
   \<and> describe_instance_patch_states (ssm_with [''i-aaa'', ''i-ccc'']
         [(''i-aaa'', ''COMPLIANT'')] []) [''i-ccc''] = Inr []
   \<and> rows_of ''i-ccc''
         (fst (fetch_account_region_data ''prod'' ''us-east-1''
            (Some (ssm_with [''i-aaa'', ''i-ccc''] [(''i-aaa'', ''COMPLIANT'')] []))
            (Some (ec2_over fleet_of_three))))
       = []"
  by (simp add: unit_defs)

text \<open>
  C1, as the code has it. The claim fails in two ways: an instance that the registry
  lists and no compliance summary names gets no row, and an instance that two
  compliance-summary items name gets two rows. What holds: when the compliance-summary
  listing names no instance of the inventory twice and names every instance of the
  inventory that the registry lists, the rows of the unit are as many as the instances
  of the inventory, every instance of the inventory has a row, and no identifier has
  two.
\<close>

theorem completeness_under_summary_coverage:
  assumes once: "distinct (filter (\<lambda>i. i \<in> set (inventory_ids ec2))
                             (map summary_id (summaries ssm)))"
    and cover: "\<forall>i \<in> set (inventory_ids ec2).
                  i \<in> set (registry_ids ssm) \<longrightarrow> i \<in> summary_id ` set (summaries ssm)"
  shows "length (fst (fetch_account_region_data an rg (Some ssm) (Some ec2)))
           = length (inventory_ids ec2)
       \<and> set (map Instance_ID (fst (fetch_account_region_data an rg (Some ssm) (Some ec2))))
           = set (inventory_ids ec2)
       \<and> distinct (map Instance_ID (fst (fetch_account_region_data an rg (Some ssm) (Some ec2))))"
proof -
  let ?out = "fst (fetch_account_region_data an rg (Some ssm) (Some ec2))"
  let ?S = "summary_id ` set (summaries ssm)"
  let ?A = "filter (\<lambda>i. i \<in> set (inventory_ids ec2)) (map summary_id (summaries ssm))"
  let ?B = "filter (\<lambda>k. k \<notin> ?S) (inventory_ids ec2)"
  have dk: "distinct (inventory_ids ec2)"
    by (simp add: inventory_ids_def collect_inventory_distinct)
  have "filter (\<lambda>k. k \<notin> ?S \<and> k \<notin> set (registry_ids ssm)) (inventory_ids ec2) = ?B"
    using cover by (intro filter_cong) auto
  then have ids: "map Instance_ID ?out = ?A @ ?B"
    by (simp add: fetch_account_region_data_def reconcile_ids)
  have s: "set (?A @ ?B) = set (inventory_ids ec2)" by auto
  have d: "distinct (?A @ ?B)" using once dk by auto
  have "length ?out = length (map Instance_ID ?out)" by simp
  also have "\<dots> = card (set (?A @ ?B))"
    unfolding ids using d by (simp only: distinct_card)
  also have "\<dots> = length (inventory_ids ec2)"
    unfolding s using dk by (simp only: distinct_card)
  finally show ?thesis using s d ids by simp
qed

theorem completeness_under_summary_coverage_witness:
  "distinct (filter (\<lambda>i. i \<in> set (inventory_ids (ec2_over fleet_of_three)))
       (map summary_id (summaries (ssm_with [''i-aaa'', ''i-ccc'']
          [(''i-aaa'', ''COMPLIANT''), (''i-ccc'', ''NON_COMPLIANT'')] [(''i-ccc'', 3, 0)]))))
   \<and> length (fst (fetch_account_region_data ''prod'' ''us-east-1''
        (Some (ssm_with [''i-aaa'', ''i-ccc'']
           [(''i-aaa'', ''COMPLIANT''), (''i-ccc'', ''NON_COMPLIANT'')] [(''i-ccc'', 3, 0)]))
        (Some (ec2_over fleet_of_three))))
       = length (inventory_ids (ec2_over fleet_of_three))
   \<and> inventory_ids (ec2_over fleet_of_three) = [''i-aaa'', ''i-bbb'', ''i-ccc'']
   \<and> distinct (map Instance_ID (fst (fetch_account_region_data ''prod'' ''us-east-1''
        (Some (ssm_with [''i-aaa'', ''i-ccc'']
           [(''i-aaa'', ''COMPLIANT''), (''i-ccc'', ''NON_COMPLIANT'')] [(''i-ccc'', 3, 0)]))
        (Some (ec2_over fleet_of_three)))))"
proof -
  let ?ssm = "ssm_with [''i-aaa'', ''i-ccc'']
                [(''i-aaa'', ''COMPLIANT''), (''i-ccc'', ''NON_COMPLIANT'')] [(''i-ccc'', 3, 0)]"
  let ?ec2 = "ec2_over fleet_of_three"
  have inv: "inventory_ids ?ec2 = [''i-aaa'', ''i-bbb'', ''i-ccc'']"
    by (simp add: unit_defs)
  have h1: "distinct (filter (\<lambda>i. i \<in> set (inventory_ids ?ec2))
              (map summary_id (summaries ?ssm)))"
    unfolding inv by (simp add: unit_defs)
  have h2: "\<forall>i \<in> set (inventory_ids ?ec2).
              i \<in> set (registry_ids ?ssm) \<longrightarrow> i \<in> summary_id ` set (summaries ?ssm)"
    unfolding inv by (simp add: unit_defs)
  from completeness_under_summary_coverage [OF h1 h2, of "''prod''" "''us-east-1''"] h1 inv
  show ?thesis by blast
qed

theorem completeness_counterexample:
  "inventory_ids (ec2_over fleet_of_three) = [''i-aaa'', ''i-bbb'', ''i-ccc'']
   \<and> map Instance_ID (fst (fetch_account_region_data ''prod'' ''us-east-1''
        (Some (ssm_with [''i-aaa'', ''i-ccc''] [(''i-ccc'', ''NON_COMPLIANT'')] [(''i-ccc'', 3, 0)]))
        (Some (ec2_over fleet_of_three))))
       = [''i-ccc'', ''i-bbb'']
   \<and> map Instance_ID (fst (fetch_account_region_data ''prod'' ''us-east-1''
        (Some (ssm_with [''i-aaa'', ''i-ccc'']
           [(''i-aaa'', ''COMPLIANT''), (''i-ccc'', ''NON_COMPLIANT''),
            (''i-ccc'', ''NON_COMPLIANT'')] [(''i-ccc'', 3, 0)]))
        (Some (ec2_over fleet_of_three))))
       = [''i-aaa'', ''i-ccc'', ''i-ccc'', ''i-bbb'']"
  by (simp add: unit_defs)

subsection \<open>The aggregation loop\<close>







subsection \<open>The reduction of the patch table\<close>

lemma drop_duplicates_seen_facts:
  "distinct (map key (drop_duplicates_seen key seen rows))
   \<and> set (map key (drop_duplicates_seen key seen rows)) = set (map key rows) - set seen
   \<and> length (drop_duplicates_seen key seen rows) \<le> length rows
   \<and> set (drop_duplicates_seen key seen rows) \<subseteq> set rows"
proof (induction rows arbitrary: seen)
  case Nil
  show ?case by simp
next
  case (Cons row rows)
  show ?case
  proof (cases "key row \<in> set seen")
    case True
    with Cons.IH [of seen] show ?thesis by auto
  next
    case False
    with Cons.IH [of "key row # seen"] show ?thesis by auto
  qed
qed

text \<open>
  C8. The raw patch rows may repeat a patch identifier; \<^verbatim>\<open>unique_patches\<close> keeps one
  row for each identifier of the raw rows and no other row, so its identifiers are
  distinct, they are the identifiers of the raw rows, and its rows are at most as many
  as the raw rows.
\<close>

theorem distinct_by_patch_id:
  "distinct (map Patch_ID (unique_patches pat_df))
   \<and> set (map Patch_ID (unique_patches pat_df)) = set (map Patch_ID pat_df)
   \<and> length (unique_patches pat_df) \<le> length pat_df
   \<and> set (unique_patches pat_df) \<subseteq> set pat_df"
  using drop_duplicates_seen_facts [of Patch_ID "[]" pat_df]
  by (simp add: unique_patches_def drop_duplicates_def)

theorem distinct_by_patch_id_witness:
  "map Patch_ID (fst (snd (snd (fetch_account_region_data ''prod'' ''us-east-1''
        (Some (ssm_with [] [] [])) (Some (ec2_over fleet_of_three))))))
      = [''KB1'', ''KB1'', ''KB2'']
   \<and> map Patch_ID (unique_patches (fst (snd (snd (fetch_account_region_data ''prod''
        ''us-east-1'' (Some (ssm_with [] [] [])) (Some (ec2_over fleet_of_three)))))))
      = [''KB1'', ''KB2'']
   \<and> distinct (map Patch_ID (unique_patches (fst (snd (snd (fetch_account_region_data ''prod''
        ''us-east-1'' (Some (ssm_with [] [] [])) (Some (ec2_over fleet_of_three))))))))"
proof -
  let ?raw = "fst (snd (snd (fetch_account_region_data ''prod'' ''us-east-1''
        (Some (ssm_with [] [] [])) (Some (ec2_over fleet_of_three)))))"
  have raw: "?raw = map (available_patch_row ''prod'' ''us-east-1'')
                      [patch_known ''KB1'', patch_known ''KB1'', patch_known ''KB2'']"
    by (simp add: fetch_account_region_data_def available_patches_def ssm_with_def)
  have a: "map Patch_ID ?raw = [''KB1'', ''KB1'', ''KB2'']"
    unfolding raw by (simp add: available_patch_row_def patch_known_def dict_get_def)
  have b: "map Patch_ID (unique_patches ?raw) = [''KB1'', ''KB2'']"
    unfolding raw
    by (simp add: unique_patches_def drop_duplicates_def available_patch_row_def
          patch_known_def dict_get_def)
  from distinct_by_patch_id [of ?raw] a b show ?thesis by simp
qed

subsection \<open>The batches of the reporters\<close>

lemma concat_slices:
  "concat (map (\<lambda>i. take s (drop i xs)) (map (\<lambda>k. k * s) [0 ..< m])) = take (m * s) xs"
proof (induction m)
  case 0
  show ?case by simp
next
  case (Suc m)
  have "take (Suc m * s) xs = take (m * s) xs @ take s (drop (m * s) xs)"
    using take_add [of "m * s" s xs] by (simp add: add.commute)
  with Suc show ?case by simp
qed

lemma batches_concat: "concat (batches xs) = xs"
proof -
  have "concat (batches xs) = take (((length xs + 50 - 1) div 50) * 50) xs"
    unfolding batches_def range_step_def batch_size_def by (rule concat_slices)
  moreover have "length xs \<le> ((length xs + 50 - 1) div 50) * 50" by arith
  ultimately show ?thesis by simp
qed

lemma batches_length: "length (batches xs) = (length xs + 49) div 50"
  by (simp add: batches_def range_step_def batch_size_def)

lemma batches_bounds:
  assumes "b \<in> set (batches xs)"
  shows "b \<noteq> [] \<and> length b \<le> 50"
proof -
  from assms obtain k where k: "k < (length xs + 50 - 1) div 50"
    and b: "b = take 50 (drop (k * 50) xs)"
    by (auto simp: batches_def range_step_def batch_size_def)
  from k have "k * 50 < length xs" by arith
  with b show ?thesis by auto
qed

lemma batch_step_calls:
  "snd (foldl (batch_step api) acc bs) = snd acc @ bs"
  by (induction bs arbitrary: acc) (simp_all add: batch_step_def split: sum.splits)

lemma get_patch_compliance_data_calls:
  "snd (get_patch_compliance_data (Inr api) ids) = batches ids"
  by (simp add: get_patch_compliance_data_def batch_step_calls batches_def range_step_def
        batch_size_def)

lemma reconcile_calls:
  "snd (reconcile an rg ssm ec2)
   = map (\<lambda>iid. [iid])
       (filter (\<lambda>iid. iid \<in> summary_id ` set (summaries ssm)) (inventory_ids ec2))"
proof -
  let ?m2 = "mark_managed (describe_instance_information ssm)
               (collect_inventory (describe_instances ec2 None))"
  let ?S = "summary_id ` set (summaries ssm)"
  let ?m3 = "mark_processed ?S ?m2"
  note facts = managed_map_facts [of ssm ec2]
  have calls: "snd (reconcile an rg ssm ec2)
        = map (\<lambda>iid. [iid])
            (filter (\<lambda>iid. case map_of ?m3 iid of Some info \<Rightarrow> processed info | None \<Rightarrow> False)
               (map fst ?m3))"
    using patch_details_calls_fold [of "describe_instance_patch_states ssm" ?m3 _ "map fst ?m3"]
    by (simp add: reconcile_def Let_def compliance_summaries_conv [OF facts(2)]
          patch_details_def summaries_def)
  have "(case map_of ?m3 k of Some info \<Rightarrow> processed info | None \<Rightarrow> False) \<longleftrightarrow> k \<in> ?S"
    if "k \<in> set (map fst ?m3)" for k
  proof -
    from that obtain v where v: "(k, v) \<in> set ?m2" by auto
    with facts(2) have "map_of ?m2 k = Some v" by simp
    moreover from v facts(3) have "\<not> processed v" by auto
    ultimately show ?thesis by (simp add: map_of_mark_processed)
  qed
  then have "filter (\<lambda>iid. case map_of ?m3 iid of Some info \<Rightarrow> processed info | None \<Rightarrow> False)
               (map fst ?m3)
             = filter (\<lambda>iid. iid \<in> ?S) (map fst ?m3)"
    by (intro filter_cong) auto
  with calls facts(1) show ?thesis by simp
qed

lemma many_ids_length: "length many_ids = 250"
  by (simp add: many_ids_def)

text \<open>
  C5, as the code has it. The claim fails on both collectors: the batch size of the
  reporter is fifty, so two hundred and fifty identifiers take five calls, and the page
  issues one call for each instance. What holds: \<^verbatim>\<open>get_patch_compliance_data\<close> issues
  its calls batch by batch; for \<open>n\<close> identifiers the batches are \<open>\<lceil>n / 50\<rceil>\<close>, each holds at
  least one and at most fifty identifiers, and together, in order, they are the
  identifiers. \<^verbatim>\<open>fetch_account_region_data\<close> issues one call of one identifier for each
  instance of the inventory that a compliance summary names.
\<close>

theorem batches_of_fifty:
  "snd (get_patch_compliance_data (Inr api) ids) = batches ids
   \<and> length (batches ids) = (length ids + 49) div 50
   \<and> concat (batches ids) = ids
   \<and> (\<forall>b \<in> set (batches ids). b \<noteq> [] \<and> length b \<le> 50)
   \<and> snd (reconcile an rg ssm ec2)
       = map (\<lambda>iid. [iid])
           (filter (\<lambda>iid. iid \<in> summary_id ` set (summaries ssm)) (inventory_ids ec2))"
  using get_patch_compliance_data_calls [of api ids] batches_length [of ids]
        batches_concat [of ids] batches_bounds [of _ ids] reconcile_calls [of an rg ssm ec2]
  by blast

theorem batches_of_fifty_witness:
  "snd (get_patch_compliance_data (Inr no_states) many_ids) = batches many_ids
   \<and> length (batches many_ids) = 5
   \<and> concat (batches many_ids) = many_ids
   \<and> take 50 many_ids \<in> set (batches many_ids)
   \<and> length (take 50 many_ids) = 50"
proof -
  have "[0 ..< 5] = [0, 1, 2, 3, 4::nat]" by (simp add: upt_rec)
  then have "take 50 many_ids \<in> set (batches many_ids)"
    by (simp add: batches_def range_step_def batch_size_def many_ids_length)
  with batches_of_fifty [of no_states many_ids] show ?thesis
    by (simp add: many_ids_length)
qed

theorem batches_counterexample:
  "length many_ids = 250
   \<and> map length (snd (get_patch_compliance_data (Inr no_states) many_ids))
       = [50, 50, 50, 50, 50]
   \<and> snd (reconcile ''prod'' ''us-east-1''
        (ssm_with [''i-aaa'', ''i-ccc'']
           [(''i-aaa'', ''COMPLIANT''), (''i-ccc'', ''NON_COMPLIANT'')] [(''i-ccc'', 3, 0)])
        (ec2_over fleet_of_three))
       = [[''i-aaa''], [''i-ccc'']]"
proof -
  have "[0 ..< 5] = [0, 1, 2, 3, 4::nat]" by (simp add: upt_rec)
  then have "map length (batches many_ids) = [50, 50, 50, 50, 50]"
    by (simp add: batches_def range_step_def batch_size_def many_ids_length)
  moreover have "snd (reconcile ''prod'' ''us-east-1''
        (ssm_with [''i-aaa'', ''i-ccc'']
           [(''i-aaa'', ''COMPLIANT''), (''i-ccc'', ''NON_COMPLIANT'')] [(''i-ccc'', 3, 0)])
        (ec2_over fleet_of_three))
       = [[''i-aaa''], [''i-ccc'']]"
    by (simp add: unit_defs)
  ultimately show ?thesis
    by (simp add: get_patch_compliance_data_calls many_ids_length)
qed

subsection \<open>The sums of the reporters\<close>


lemma tally_state_total [simp]:
  "total_managed_instances (tally_state summary st) = total_managed_instances summary"
  by (simp add: tally_state_def Let_def)






















subsection \<open>The statuses of the rows\<close>














subsection \<open>The listing of the inventory\<close>

lemma filter_pages:
  "concat (concat (map (map (filter P)) pages)) = filter P (concat (concat pages))"
  by (induction pages) (simp_all add: filter_concat)

lemma get_ec2_instances_running_or_stopped:
  "get_ec2_instances (Inr (provider_listing fleet))
   = map ec2_InstanceId
       (filter (\<lambda>instance. ec2_State instance \<in> set [''running'', ''stopped''])
          (concat (concat fleet)))"
  by (simp only: get_ec2_instances_def provider_listing_def Let_def sum.case option.case
        fst_conv snd_conv filter_pages)

text \<open>
  C9 on a fleet with a terminated instance. \<^verbatim>\<open>fetch_account_region_data\<close> of
  \<^verbatim>\<open>patch_compliance_final.py\<close> lists the instances without a filter on their state,
  and reports the terminated instance; \<^verbatim>\<open>get_ec2_instances\<close> of the reporter, which
  passes the filter, does not.
\<close>

theorem terminated_instance_listed:
  "map (\<lambda>r. (Instance_ID r, Instance_State r, Compliance_Status r))
     (fst (fetch_account_region_data ''prod'' ''us-east-1''
        (Some (ssm_with [''i-aaa''] [(''i-aaa'', ''COMPLIANT'')] []))
        (Some (ec2_over fleet_with_terminated))))
   = [(''i-aaa'', ''running'', ''COMPLIANT''), (''i-ddd'', ''terminated'', ''UNMANAGED'')]
   \<and> get_ec2_instances (Inr (provider_listing fleet_with_terminated)) = [''i-aaa'']"
  by (simp add: unit_defs get_ec2_instances_def)

end
